theory Spec2Isabelle
  imports Main
begin

section \<open>Strings and numbers of the host language\<close>

text \<open>
  JavaScript strings are modelled as \<open>string\<close>. A single quote cannot be written inside
  a string literal, so the quote of the template literals is the constant \<open>apostrophe\<close>.
\<close>

definition apostrophe :: string where
  "apostrophe = [CHR 0x27]"

text \<open>
  \<open>String.prototype.toLowerCase\<close>. The model lower-cases the ASCII letters and leaves
  every other character as it is. JavaScript also lower-cases the capital letters
  outside ASCII, but only the Kelvin sign to an ASCII letter, \<open>k\<close>, which does not
  occur in \<open>feat\<close>, \<open>feature\<close>, \<open>error\<close>, \<open>warn\<close> or \<open>ignore\<close>, the only strings that
  the program compares a lower-cased string with; so these comparisons come out as in
  the program.
\<close>

definition toLowerCase_char :: "char \<Rightarrow> char" where
  "toLowerCase_char c =
     (case map_of (zip ''ABCDEFGHIJKLMNOPQRSTUVWXYZ'' ''abcdefghijklmnopqrstuvwxyz'') c of
        Some l \<Rightarrow> l
      | None \<Rightarrow> c)"

definition toLowerCase :: "string \<Rightarrow> string" where
  "toLowerCase s = map toLowerCase_char s"

text \<open>
  \<open>Number.prototype.toString\<close> on a natural number (lengths, page numbers, the major
  component): its decimal digits.
\<close>

fun toString :: "nat \<Rightarrow> string" where
  "toString n =
     (if n < 10 then [''0123456789'' ! n]
      else toString (n div 10) @ [''0123456789'' ! (n mod 10)])"

declare toString.simps [simp del]

section \<open>Data model\<close>

text \<open>\<open>src/github/types\<close>: a commit as the client hands it to the classifier.\<close>

record Commit =
  sha :: string
  message :: string

text \<open>\<open>src/types.ts\<close>: the reaction to a message that is not a conventional commit.\<close>

datatype NotConventionalCommitsReaction = ERROR | WARN | IGNORE

text \<open>The three values of \<open>semver.ReleaseType\<close> that the classifier returns.\<close>

datatype ReleaseType = major | minor | patch

definition ReleaseType_string :: "ReleaseType \<Rightarrow> string" where
  "ReleaseType_string b = (case b of major \<Rightarrow> ''major'' | minor \<Rightarrow> ''minor'' | patch \<Rightarrow> ''patch'')"

text \<open>
  What \<open>cc.toConventionalChangelogFormat (cc.parser message)\<close> yields, as far as the
  classifier reads it: the type token and the notes, each with a title and a text.
\<close>

record Note =
  title :: string
  note_text :: string

record ConventionalCommit =
  cc_type :: string
  cc_notes :: "Note list"

text \<open>
  The parser of \<open>@conventional-commits/parser\<close> is a collaborator: a function from the
  message to the parsed commit, \<open>None\<close> when it throws.
\<close>

type_synonym parser = "string \<Rightarrow> ConventionalCommit option"

text \<open>
  The calls the program makes on \<open>@actions/core\<close>, in the order it makes them, and the
  calls on the parser collaborator (\<open>ParserCall\<close>, with the message it is given).
\<close>

datatype effect =
    Debug string
  | Info string
  | Warning string
  | SetFailed string
  | SetOutput string string
  | ParserCall string

section \<open>The bump classifier (\<open>logic.ts\<close>)\<close>

text \<open>
  \<open>IGNORE_MESSAGE_PATTERN = /(^Merge )/\<close>: without the multi-line flag, \<open>^\<close> is the
  start of the string, so \<open>test\<close> holds exactly of the messages that start with
  \<open>Merge\<close> and a space.
\<close>

definition IGNORE_MESSAGE_PATTERN_test :: "string \<Rightarrow> bool" where
  "IGNORE_MESSAGE_PATTERN_test s = (take 6 s = ''Merge '')"

definition BREAKING_CHANGE :: string where
  "BREAKING_CHANGE = ''BREAKING CHANGE''"

definition MINOR_LIST :: "string list" where
  "MINOR_LIST = [''feat'', ''feature'']"

definition noteHasBreakingChange :: "Note \<Rightarrow> bool" where
  "noteHasBreakingChange note = (title note = BREAKING_CHANGE)"

text \<open>The local variables of \<open>getBumpTypeFromCommits\<close>, and the effects so far.\<close>

record loop_state =
  bumpMajor :: bool
  bumpMinor :: bool
  effects :: "effect list"

text \<open>
  One iteration of the \<open>for\<close> loop: either the state for the next commit, or the
  \<open>return\<close> inside the \<open>catch\<close>, which leaves the function with \<open>undefined\<close>.
\<close>

datatype iteration = Next loop_state | ReturnUndefined "effect list"

definition not_conventional_text :: "string \<Rightarrow> string" where
  "not_conventional_text m =
     ''Commit message not in conventional-commits format: '' @ apostrophe @ m @ apostrophe"

definition loop_body :: "parser \<Rightarrow> NotConventionalCommitsReaction \<Rightarrow> Commit \<Rightarrow> loop_state \<Rightarrow> iteration" where
  "loop_body parse reaction commit s =
     (if IGNORE_MESSAGE_PATTERN_test (message commit) then
        Next (s\<lparr>effects := effects s @
                 [Debug (''Ignoring commit message: '' @ apostrophe @ message commit @ apostrophe)]\<rparr>)
      else
        (case parse (message commit) of
           Some commitMessage \<Rightarrow>
             (let commitMessageType = toLowerCase (cc_type commitMessage);
                  s1 = s\<lparr>effects := effects s @ [ParserCall (message commit)]\<rparr>
              in if list_ex noteHasBreakingChange (cc_notes commitMessage) then
                   Next (s1\<lparr>bumpMajor := True\<rparr>)
                 else if commitMessageType \<in> set MINOR_LIST then
                   Next (s1\<lparr>bumpMinor := True\<rparr>)
                 else Next s1)
         | None \<Rightarrow>
             (if reaction = ERROR then
                ReturnUndefined (effects s @
                  [ParserCall (message commit), SetFailed (not_conventional_text (message commit))])
              else if reaction = WARN then
                Next (s\<lparr>effects := effects s @
                  [ParserCall (message commit), Warning (not_conventional_text (message commit))]\<rparr>)
              else
                Next (s\<lparr>effects := effects s @ [ParserCall (message commit)]\<rparr>))))"

text \<open>
  The loop over the commits and the final conditional expression. The result is the
  returned value (\<open>None\<close> for \<open>undefined\<close>) and the effects of the call. The reaction
  is an argument here; in the program it is \<open>WARN\<close> for a caller that passes none.
\<close>

fun classify_from :: "parser \<Rightarrow> NotConventionalCommitsReaction \<Rightarrow> Commit list \<Rightarrow> loop_state
    \<Rightarrow> ReleaseType option \<times> effect list" where
  "classify_from parse reaction [] s =
     (Some (if bumpMajor s then major else if bumpMinor s then minor else patch), effects s)"
| "classify_from parse reaction (commit # commits) s =
     (case loop_body parse reaction commit s of
        ReturnUndefined es \<Rightarrow> (None, es)
      | Next s' \<Rightarrow> classify_from parse reaction commits s')"

definition getBumpTypeFromCommits :: "parser \<Rightarrow> Commit list \<Rightarrow> NotConventionalCommitsReaction
    \<Rightarrow> ReleaseType option \<times> effect list" where
  "getBumpTypeFromCommits parse commits notConventionalCommitsReaction =
     classify_from parse notConventionalCommitsReaction commits
       \<lparr>bumpMajor = False, bumpMinor = False, effects = []\<rparr>"


section \<open>Reading the effects of a call\<close>

text \<open>The messages handed to the parser collaborator, in the order of the calls.\<close>

fun parser_calls :: "effect list \<Rightarrow> string list" where
  "parser_calls [] = []"
| "parser_calls (ParserCall m # es) = m # parser_calls es"
| "parser_calls (e # es) = parser_calls es"

text \<open>
  \<open>core.debug\<close> writes trace-level diagnostics; \<open>without_debug\<close> keeps every other
  effect: the parser calls, the warnings and the failure.
\<close>

fun is_Debug :: "effect \<Rightarrow> bool" where
  "is_Debug (Debug m) = True"
| "is_Debug e = False"

definition without_debug :: "effect list \<Rightarrow> effect list" where
  "without_debug es = filter (\<lambda>e. \<not> is_Debug e) es"

section \<open>The classification as the specification words it\<close>

text \<open>
  A commit is ignored when its message matches the ignore pattern. The next three
  predicates sort the commits that are not ignored: the parser rejects the message;
  the parsed commit has a note titled \<open>BREAKING CHANGE\<close>; the lower-cased type token of
  the parsed commit is \<open>feat\<close> or \<open>feature\<close>.
\<close>

definition ignored :: "Commit \<Rightarrow> bool" where
  "ignored c = IGNORE_MESSAGE_PATTERN_test (message c)"

definition fails_parsing :: "parser \<Rightarrow> Commit \<Rightarrow> bool" where
  "fails_parsing parse c = (\<not> ignored c \<and> parse (message c) = None)"

definition carries_breaking_change :: "parser \<Rightarrow> Commit \<Rightarrow> bool" where
  "carries_breaking_change parse c =
     (\<not> ignored c \<and>
      (case parse (message c) of
         Some p \<Rightarrow> list_ex (\<lambda>n. title n = ''BREAKING CHANGE'') (cc_notes p)
       | None \<Rightarrow> False))"

definition is_feature :: "parser \<Rightarrow> Commit \<Rightarrow> bool" where
  "is_feature parse c =
     (\<not> ignored c \<and>
      (case parse (message c) of
         Some p \<Rightarrow> toLowerCase (cc_type p) \<in> {''feat'', ''feature''}
       | None \<Rightarrow> False))"

text \<open>
  The result the specification gives for a run that is not aborted: major if some commit
  carries a breaking-change note, else minor if some commit is a feature, else patch.
\<close>

definition expected_bump :: "parser \<Rightarrow> Commit list \<Rightarrow> ReleaseType" where
  "expected_bump parse commits =
     (if list_ex (carries_breaking_change parse) commits then major
      else if list_ex (is_feature parse) commits then minor
      else patch)"

text \<open>The severity order on the bump types: patch below minor below major.\<close>

definition severity :: "ReleaseType \<Rightarrow> nat" where
  "severity b = (case b of patch \<Rightarrow> 0 | minor \<Rightarrow> 1 | major \<Rightarrow> 2)"

section \<open>Test doubles and sample inputs\<close>

text \<open>
  A parser double in the manner of the mocks of the test suite: a finite table from
  messages to parsed commits, rejecting every message outside the table. The theorems
  of the classifier hold for every parser; the double is used to evaluate them.
\<close>

definition example_parser :: parser where
  "example_parser = map_of
     [(''feat: add user dashboard'', \<lparr>cc_type = ''feat'', cc_notes = []\<rparr>),
      (''fix: resolve login issue'', \<lparr>cc_type = ''fix'', cc_notes = []\<rparr>),
      (''Feature(ui): dark mode'', \<lparr>cc_type = ''Feature'', cc_notes = []\<rparr>),
      (''docs: what BREAKING CHANGE means'', \<lparr>cc_type = ''docs'',
         cc_notes = [\<lparr>title = ''breaking change'', note_text = ''lower case''\<rparr>]\<rparr>),
      (''feat!: remove deprecated API endpoints'', \<lparr>cc_type = ''feat'',
         cc_notes = [\<lparr>title = ''BREAKING CHANGE'', note_text = ''remove deprecated API endpoints''\<rparr>]\<rparr>)]"

definition commit_of :: "string \<Rightarrow> Commit" where
  "commit_of m = \<lparr>sha = ''abc123'', message = m\<rparr>"

text \<open>The mixed commit list of \<open>logic.spec.ts\<close>, and its two merge commits.\<close>

definition mixed_commits :: "Commit list" where
  "mixed_commits = map commit_of
     [''feat: add user dashboard'', ''Merge branch feature into main'',
      ''fix: resolve login issue'', ''Invalid commit message format'']"

definition merge_commits :: "Commit list" where
  "merge_commits = map commit_of
     [''Merge branch feature into main'', ''Merge pull request #123 from user/branch'']"


section \<open>The pre-release suffixer (\<open>logic.ts\<close>)\<close>

text \<open>
  Modelled from the spec: \<open>suffixWithPreRelease\<close>, which \<open>main.ts\<close> imports from
  \<open>logic.ts\<close> but which the sources at hand do not contain. The specification (4.2)
  appends to the version the glue and then a short form of the hash of the triggering
  revision, with no check of the glue; the test of \<open>logic.spec.ts\<close> fixes the short form
  to the first seven characters (\<open>abcdef1234567890\<close> gives \<open>abcdef1\<close>). The hash is the
  ambient \<open>context.sha\<close>, here the first argument.
\<close>

definition suffixWithPreRelease :: "string \<Rightarrow> string \<Rightarrow> string \<Rightarrow> string" where
  "suffixWithPreRelease revision version glue = version @ glue @ take 7 revision"

section \<open>The hosting client (\<open>github/GitHubClient.ts\<close>)\<close>

text \<open>
  A thrown JavaScript error: its \<open>status\<close> (present on the request errors of the REST
  client, absent on other errors) and its \<open>message\<close>.
\<close>

datatype error = Error (status: "nat option") (error_message: string)

text \<open>
  A response of the comparison endpoint, as far as the client reads it: \<open>data.commits\<close>,
  the commits of the page (\<open>commit.sha\<close> and \<open>commit.commit.message\<close>), and
  \<open>data.total_commits\<close>.
\<close>

record CompareCommit =
  commit_sha :: string
  commit_message :: string

record CompareResponse =
  data_commits :: "CompareCommit list"
  data_total_commits :: nat

text \<open>
  The REST endpoints the client calls, as functions of their parameters; \<open>Inl\<close> is a
  rejected request. The owner and the repository name are \<open>None\<close> where the client holds
  \<open>undefined\<close>. The first and the last answer with \<open>data.tag_name\<close> and
  \<open>data.default_branch\<close>.
\<close>

record Octokit =
  repos_getLatestRelease :: "string option \<Rightarrow> string option \<Rightarrow> error + string"
  repos_compareCommitsWithBasehead ::
    "string option \<Rightarrow> string option \<Rightarrow> string \<Rightarrow> nat \<Rightarrow> nat \<Rightarrow> error + CompareResponse"
  repos_get :: "string option \<Rightarrow> string option \<Rightarrow> error + string"

record GitHubClient =
  octokit :: Octokit
  repoOwner :: "string option"
  repoName :: "string option"

text \<open>\<open>String.prototype.split\<close> with a one-character separator.\<close>

fun split :: "char \<Rightarrow> string \<Rightarrow> string list" where
  "split sep [] = [[]]"
| "split sep (c # cs) =
     (if c = sep then [] # split sep cs
      else (case split sep cs of
              p # ps \<Rightarrow> (c # p) # ps
            | [] \<Rightarrow> [[c]]))"

text \<open>Reading an array by index: \<open>undefined\<close> beyond its end.\<close>

definition element :: "'a list \<Rightarrow> nat \<Rightarrow> 'a option" where
  "element xs i = (if i < length xs then Some (xs ! i) else None)"

text \<open>
  The constructor, with the rest parameter \<open>repoArgs\<close>: one argument is a full name
  \<open>owner/repo\<close>, split at the slashes; the owner and the name are the first two parts.
\<close>

definition GitHubClient_new :: "(string \<Rightarrow> Octokit) \<Rightarrow> string \<Rightarrow> string list \<Rightarrow> GitHubClient" where
  "GitHubClient_new getOctokit token repoArgs =
     (let parts = (if length repoArgs = 1 then split CHR ''/'' (repoArgs ! 0) else repoArgs)
      in \<lparr>octokit = getOctokit token, repoOwner = element parts 0, repoName = element parts 1\<rparr>)"

definition getLatestReleaseTag :: "GitHubClient \<Rightarrow> error + string option" where
  "getLatestReleaseTag client =
     (case repos_getLatestRelease (octokit client) (repoOwner client) (repoName client) of
        Inr tag_name \<Rightarrow> Inr (Some tag_name)
      | Inl error \<Rightarrow> (if status error = Some 404 then Inr None else Inl error))"

text \<open>
  The \<open>while (true)\<close> loop of \<open>getListOfCommitsBetween\<close>, from the page \<open>page\<close> on, with
  the commits and the effects so far. It has no bound of its own: a server that keeps
  answering with fewer commits than \<open>total_commits\<close> keeps it running, so the result
  is an option, \<open>None\<close> for a call that never returns. The result of a call that returns
  is its effects and either the thrown error or the returned list. The variable
  \<open>total_commits\<close> is read only after a response has set it, so it is not carried from
  one iteration to the next.
\<close>

partial_function (option) fetch_pages ::
  "GitHubClient \<Rightarrow> string \<Rightarrow> string \<Rightarrow> Commit list \<Rightarrow> effect list \<Rightarrow> nat
    \<Rightarrow> (effect list \<times> (error + Commit list)) option" where
  "fetch_pages client rangeBegin rangeEnd listOfCommits es page =
     (let es1 = es @ [Debug (''Fetching commits page '' @ toString page)] in
      case repos_compareCommitsWithBasehead (octokit client) (repoOwner client) (repoName client)
             (rangeBegin @ ''...'' @ rangeEnd) page 100 of
        Inr response \<Rightarrow>
          (let es2 = es1 @
                 [Debug (''Fetched '' @ toString (length (data_commits response)) @ '' commits''),
                  Debug (''Total commits to fetch: '' @ toString (data_total_commits response))] @
                 map (\<lambda>c. Debug (''Found commit: '' @ commit_sha c @ '' with message: '' @ commit_message c))
                   (data_commits response);
               listOfCommits2 = listOfCommits @
                 map (\<lambda>c. \<lparr>sha = commit_sha c, message = commit_message c\<rparr>) (data_commits response)
           in if data_total_commits response \<le> length listOfCommits2 then
                Some (es2 @ [Debug (''Total commits fetched: '' @ toString (length listOfCommits2))],
                      Inr listOfCommits2)
              else fetch_pages client rangeBegin rangeEnd listOfCommits2 es2 (page + 1))
      | Inl error \<Rightarrow>
          (let es2 = es1 @ [Debug (''Error fetching commits: '' @ error_message error)]
           in if status error = Some 404 then
                Some (es2 @ [Debug (''Total commits fetched: '' @ toString (length listOfCommits))],
                      Inr listOfCommits)
              else Some (es2, Inl error)))"

declare fetch_pages.simps [code]

definition getListOfCommitsBetween :: "GitHubClient \<Rightarrow> string \<Rightarrow> string
    \<Rightarrow> (effect list \<times> (error + Commit list)) option" where
  "getListOfCommitsBetween client rangeBegin rangeEnd =
     fetch_pages client rangeBegin rangeEnd []
       [Debug (''Getting list of commits between '' @ rangeBegin @ '' and '' @ rangeEnd)] 0"

definition getDefaultBranchName :: "GitHubClient \<Rightarrow> error + string" where
  "getDefaultBranchName client =
     repos_get (octokit client) (repoOwner client) (repoName client)"

section \<open>The version resolver (\<open>types.ts\<close>, \<open>main.ts\<close>)\<close>

definition getNotConventionalCommitsReactionEnumFromString ::
    "string \<Rightarrow> error + NotConventionalCommitsReaction" where
  "getNotConventionalCommitsReactionEnumFromString v =
     (if toLowerCase v = ''error'' then Inr ERROR
      else if toLowerCase v = ''warn'' then Inr WARN
      else if toLowerCase v = ''ignore'' then Inr IGNORE
      else Inl (Error None (''Invalid NotConventionalCommitsReaction value: '' @ v)))"

text \<open>
  What \<open>main\<close> is run against: the factory of the REST client, the three functions of
  the \<open>semver\<close> library it calls, the parser of the classifier and the ambient hash of
  the triggering revision. \<open>semver.valid\<close> and \<open>semver.inc\<close> answer \<open>null\<close> (\<open>None\<close>)
  or a version string; \<open>semver.major\<close> answers a number or throws.
\<close>

record Env =
  getOctokit :: "string \<Rightarrow> Octokit"
  semver_valid :: "string \<Rightarrow> string option"
  semver_inc :: "string \<Rightarrow> ReleaseType \<Rightarrow> string option"
  semver_major :: "string \<Rightarrow> error + nat"
  cc_parser :: parser
  context_sha :: string

text \<open>
  The conditions \<open>if (x)\<close> and \<open>if (!x)\<close> on a string that may be \<open>null\<close>: \<open>null\<close> and
  the empty string are falsy. \<open>truthy\<close> keeps a truthy string and maps both falsy values
  to \<open>None\<close>. \<open>or_empty\<close> is the expression \<open>x ?? ''\<close>.
\<close>

definition truthy :: "string option \<Rightarrow> string option" where
  "truthy x = (case x of None \<Rightarrow> None | Some s \<Rightarrow> if s = [] then None else Some s)"

definition or_empty :: "string option \<Rightarrow> string" where
  "or_empty x = (case x of None \<Rightarrow> [] | Some s \<Rightarrow> s)"

text \<open>How the promise of \<open>main\<close> settles: it returns, or an error escapes it.\<close>

datatype outcome = Returned | Thrown error

text \<open>
  The block of \<open>main\<close> that fills \<open>currentVersion\<close> and \<open>newVersion\<close> (from the test of
  \<open>latestReleaseTag\<close> to the end of its \<open>else\<close>). The result is the effects of the
  block and the two versions, or \<open>None\<close> in their place where the block ends \<open>main\<close>
  by \<open>setFailed\<close> and \<open>return\<close>; the outer option is \<open>None\<close> when the listing of the
  commits never returns. The inner test \<open>if (latestReleaseTag)\<close> repeats the outer one
  and always holds. The bump type that \<open>getBumpTypeFromCommits\<close> returns is tested
  with \<open>if (!bumpType)\<close>, which holds of \<open>null\<close> and of \<open>undefined\<close>.
\<close>

definition determine_versions :: "Env \<Rightarrow> GitHubClient \<Rightarrow> NotConventionalCommitsReaction
    \<Rightarrow> string option \<Rightarrow> string \<Rightarrow> string \<Rightarrow> (effect list \<times> (string \<times> string) option) option" where
  "determine_versions env githubClient notConventionalCommitsReactionEnum latestReleaseTag
       targetBranch initReleaseVersion =
     (case truthy latestReleaseTag of
        Some tag \<Rightarrow>
          (case truthy (semver_valid env tag) of
             None \<Rightarrow>
               Some ([SetFailed (''Latest release tag ('' @ tag @
                        '') is not a valid semver version. Please ensure your latest release tag follows semver format.'')],
                     None)
           | Some currentVersion \<Rightarrow>
               (case getListOfCommitsBetween githubClient tag targetBranch of
                  None \<Rightarrow> None
                | Some (es_list, Inl error) \<Rightarrow>
                    Some (Debug (''Getting list of commits between '' @ tag @ '' and '' @ targetBranch @ ''.'') #
                          es_list @
                          [SetFailed (''Failed to get the list of commits between '' @ tag @ '' and '' @
                             targetBranch @ ''. Please ensure the target branch exists.'')],
                          None)
                | Some (es_list, Inr commits) \<Rightarrow>
                    (let (bumpType, es_bump) =
                           (if length commits = 0 then
                              (None, [Info ''No new commits found since the latest release.''])
                            else
                              (fst (getBumpTypeFromCommits (cc_parser env) commits
                                      notConventionalCommitsReactionEnum),
                               Info (''Found '' @ toString (length commits) @
                                       '' commits since the latest release.'') #
                               snd (getBumpTypeFromCommits (cc_parser env) commits
                                      notConventionalCommitsReactionEnum)));
                         (bumpType2, es_default) =
                           (case bumpType of
                              None \<Rightarrow> (patch, [Info ''No conventional commits found. Bumping patch version.''])
                            | Some b \<Rightarrow> (b, []));
                         es = Debug (''Getting list of commits between '' @ tag @ '' and '' @ targetBranch @ ''.'') #
                              es_list @ es_bump @ es_default @
                              [Info (''Bump type: '' @ ReleaseType_string bumpType2)]
                     in case truthy (semver_inc env currentVersion bumpType2) of
                          None \<Rightarrow>
                            Some (es @ [SetFailed ''Failed to increment version. Please check the current version and bump type.''],
                                  None)
                        | Some newVersion \<Rightarrow> Some (es, Some (currentVersion, newVersion)))))
      | None \<Rightarrow>
          (case truthy (semver_valid env initReleaseVersion) of
             None \<Rightarrow>
               Some ([SetFailed (''No valid latest release tag found and the provided initial version ('' @
                        initReleaseVersion @ '') is not a valid semver version.'')],
                     None)
           | Some newVersion \<Rightarrow> Some ([], Some ([], newVersion))))"

text \<open>
  The rest of \<open>main\<close>, from the output of the current version on: the major component
  is read from \<open>newVersion\<close> first, then the default branch decides on the suffix, then
  the new version and the major component are written.
\<close>

definition emit_versions :: "Env \<Rightarrow> GitHubClient \<Rightarrow> string \<Rightarrow> string \<Rightarrow> string \<Rightarrow> string
    \<Rightarrow> effect list \<times> outcome" where
  "emit_versions env githubClient currentVersion newVersion targetBranch preReleaseVersionGlue =
     (let es_current = [Info (''Current version: '' @ currentVersion),
                        SetOutput ''current-version'' currentVersion]
      in case semver_major env newVersion of
           Inl error \<Rightarrow> (es_current, Thrown error)
         | Inr newMajorVersion \<Rightarrow>
             (case getDefaultBranchName githubClient of
                Inl error \<Rightarrow> (es_current, Thrown error)
              | Inr defaultBranch \<Rightarrow>
                  (let defaultBranchRef = ''refs/heads/'' @ defaultBranch;
                       (newVersion2, es_suffix) =
                         (if targetBranch \<noteq> defaultBranchRef then
                            (suffixWithPreRelease (context_sha env) newVersion preReleaseVersionGlue,
                             [Info (''Target branch ('' @ targetBranch @ '') is not the default branch ('' @
                                defaultBranchRef @ ''). Suffixing version with pre-release identifier.'')])
                          else (newVersion, []))
                   in (es_current @ es_suffix @
                       [Info (''New version: '' @ newVersion2),
                        SetOutput ''new-version'' newVersion2,
                        Info (''New major version: '' @ toString newMajorVersion),
                        SetOutput ''new-major-version'' (toString newMajorVersion)],
                       Returned))))"

definition main :: "Env \<Rightarrow> string \<Rightarrow> string \<Rightarrow> string \<Rightarrow> string \<Rightarrow> string \<Rightarrow> string
    \<Rightarrow> (effect list \<times> outcome) option" where
  "main env fullRepoName githubToken targetBranch notConventionalCommitsReaction
       initReleaseVersion preReleaseVersionGlue =
     (case getNotConventionalCommitsReactionEnumFromString notConventionalCommitsReaction of
        Inl error \<Rightarrow> Some ([], Thrown error)
      | Inr notConventionalCommitsReactionEnum \<Rightarrow>
          (let githubClient = GitHubClient_new (getOctokit env) githubToken [fullRepoName]
           in case getLatestReleaseTag githubClient of
                Inl error \<Rightarrow> Some ([], Thrown error)
              | Inr latestReleaseTag \<Rightarrow>
                  (let es_tag = [Info (''Latest release tag: '' @ or_empty latestReleaseTag),
                                 SetOutput ''latest-release-tag'' (or_empty latestReleaseTag)]
                   in case determine_versions env githubClient notConventionalCommitsReactionEnum
                             latestReleaseTag targetBranch initReleaseVersion of
                        None \<Rightarrow> None
                      | Some (es_versions, None) \<Rightarrow> Some (es_tag @ es_versions, Returned)
                      | Some (es_versions, Some (currentVersion, newVersion)) \<Rightarrow>
                          (case emit_versions env githubClient currentVersion newVersion
                                  targetBranch preReleaseVersionGlue of
                             (es_emit, result) \<Rightarrow> Some (es_tag @ es_versions @ es_emit, result)))))"

text \<open>The values written to the output \<open>name\<close>, in the order of the calls.\<close>

fun outputs :: "string \<Rightarrow> effect list \<Rightarrow> string list" where
  "outputs name [] = []"
| "outputs name (SetOutput k v # es) = (if k = name then v # outputs name es else outputs name es)"
| "outputs name (e # es) = outputs name es"

text \<open>The texts of the calls of \<open>core.setFailed\<close>: a run with one is marked failed.\<close>

fun failures :: "effect list \<Rightarrow> string list" where
  "failures [] = []"
| "failures (SetFailed m # es) = m # failures es"
| "failures (e # es) = failures es"

text \<open>
  The version that \<open>main\<close> holds in \<open>newVersion\<close> when it reads the major component:
  the incremented version, or the initial version when there is no release yet.
\<close>

definition incremented_version :: "Env \<Rightarrow> string \<Rightarrow> string \<Rightarrow> string \<Rightarrow> string \<Rightarrow> string
    \<Rightarrow> string option" where
  "incremented_version env fullRepoName githubToken targetBranch notConventionalCommitsReaction
       initReleaseVersion =
     (case getNotConventionalCommitsReactionEnumFromString notConventionalCommitsReaction of
        Inl error \<Rightarrow> None
      | Inr reaction \<Rightarrow>
          (case getLatestReleaseTag (GitHubClient_new (getOctokit env) githubToken [fullRepoName]) of
             Inl error \<Rightarrow> None
           | Inr latestReleaseTag \<Rightarrow>
               (case determine_versions env (GitHubClient_new (getOctokit env) githubToken [fullRepoName])
                       reaction latestReleaseTag targetBranch initReleaseVersion of
                  Some (es, Some (currentVersion, newVersion)) \<Rightarrow> Some newVersion
                | _ \<Rightarrow> None)))"

section \<open>A sample environment\<close>

text \<open>
  Doubles in the manner of the mocks of \<open>main.spec.ts\<close>: a repository whose latest
  release is \<open>v1.0.0\<close> and whose default branch is \<open>main\<close>, with the given commits since
  the release on one page; and the answers of \<open>semver\<close> on the versions of the examples.
\<close>

definition example_octokit :: "string list \<Rightarrow> string \<Rightarrow> Octokit" where
  "example_octokit messages token =
     \<lparr>repos_getLatestRelease = (\<lambda>owner repo. Inr ''v1.0.0''),
      repos_compareCommitsWithBasehead = (\<lambda>owner repo basehead page per_page.
         Inr \<lparr>data_commits = map (\<lambda>m. \<lparr>commit_sha = ''abc123'', commit_message = m\<rparr>) messages,
              data_total_commits = length messages\<rparr>),
      repos_get = (\<lambda>owner repo. Inr ''main'')\<rparr>"

definition example_env :: "string list \<Rightarrow> Env" where
  "example_env messages =
     \<lparr>getOctokit = example_octokit messages,
      semver_valid = map_of [(''v1.0.0'', ''1.0.0''), (''1.0.0'', ''1.0.0'')],
      semver_inc = (\<lambda>v b. map_of [((''1.0.0'', patch), ''1.0.1''), ((''1.0.0'', minor), ''1.1.0''),
                                  ((''1.0.0'', major), ''2.0.0'')] (v, b)),
      semver_major = (\<lambda>v. case map_of [(''1.0.0'', 1), (''1.0.1'', 1), (''1.1.0'', 1), (''2.0.0'', 2)] v of
                             Some n \<Rightarrow> Inr n
                           | None \<Rightarrow> Inl (Error None (''Invalid Version: '' @ v))),
      cc_parser = example_parser,
      context_sha = ''abcdef1234567890''\<rparr>"

text \<open>A client of a repository that the server does not find: every request is a 404.\<close>

definition not_found_octokit :: Octokit where
  "not_found_octokit =
     \<lparr>repos_getLatestRelease = (\<lambda>owner repo. Inl (Error (Some 404) ''Not Found'')),
      repos_compareCommitsWithBasehead = (\<lambda>owner repo basehead page per_page.
         Inl (Error (Some 404) ''Not Found'')),
      repos_get = (\<lambda>owner repo. Inl (Error (Some 404) ''Not Found''))\<rparr>"

text \<open>
  The effects of the run of \<open>main\<close> on the sample environment with one breaking commit
  since the release, a target branch other than the default branch, and the glue \<open>-\<close>.
\<close>

definition prerelease_run :: "effect list" where
  "prerelease_run =
     [Info ''Latest release tag: v1.0.0'',
      SetOutput ''latest-release-tag'' ''v1.0.0'',
      Debug ''Getting list of commits between v1.0.0 and refs/heads/develop.'',
      Debug ''Getting list of commits between v1.0.0 and refs/heads/develop'',
      Debug ''Fetching commits page 0'',
      Debug ''Fetched 1 commits'',
      Debug ''Total commits to fetch: 1'',
      Debug ''Found commit: abc123 with message: feat!: remove deprecated API endpoints'',
      Debug ''Total commits fetched: 1'',
      Info ''Found 1 commits since the latest release.'',
      ParserCall ''feat!: remove deprecated API endpoints'',
      Info ''Bump type: major'',
      Info ''Current version: 1.0.0'',
      SetOutput ''current-version'' ''1.0.0'',
      Info ''Target branch (refs/heads/develop) is not the default branch (refs/heads/main). Suffixing version with pre-release identifier.'',
      Info ''New version: 2.0.0-abcdef1'',
      SetOutput ''new-version'' ''2.0.0-abcdef1'',
      Info ''New major version: 2'',
      SetOutput ''new-major-version'' ''2'']"

section \<open>Properties of the loop of the classifier\<close>

lemma loop_body_ignored:
  "ignored c \<Longrightarrow> loop_body parse r c s =
     Next (s\<lparr>effects := effects s @
       [Debug (''Ignoring commit message: '' @ apostrophe @ message c @ apostrophe)]\<rparr>)"
  by (simp add: loop_body_def ignored_def)

lemma loop_body_fails:
  "fails_parsing parse c \<Longrightarrow> loop_body parse r c s =
     (if r = ERROR then
        ReturnUndefined (effects s @ [ParserCall (message c), SetFailed (not_conventional_text (message c))])
      else if r = WARN then
        Next (s\<lparr>effects := effects s @ [ParserCall (message c), Warning (not_conventional_text (message c))]\<rparr>)
      else Next (s\<lparr>effects := effects s @ [ParserCall (message c)]\<rparr>))"
  by (simp add: loop_body_def ignored_def fails_parsing_def)

lemma loop_body_fails_continue:
  assumes "fails_parsing parse c" and "r \<noteq> ERROR"
  shows "\<exists>s'. loop_body parse r c s = Next s'
           \<and> bumpMajor s' = bumpMajor s \<and> bumpMinor s' = bumpMinor s
           \<and> effects s' = effects s @ ParserCall (message c) #
                 (if r = WARN then [Warning (not_conventional_text (message c))] else [])"
  using assms by (simp add: loop_body_fails)

lemma list_ex_noteHasBreakingChange:
  "list_ex noteHasBreakingChange ns = list_ex (\<lambda>n. title n = ''BREAKING CHANGE'') ns"
  by (simp add: list_ex_iff noteHasBreakingChange_def BREAKING_CHANGE_def)

lemma loop_body_parsed:
  assumes "\<not> ignored c" and "parse (message c) = Some p"
  shows "\<exists>s'. loop_body parse r c s = Next s'
           \<and> bumpMajor s' = (bumpMajor s \<or> carries_breaking_change parse c)
           \<and> bumpMinor s' = (bumpMinor s \<or> (is_feature parse c \<and> \<not> carries_breaking_change parse c))
           \<and> effects s' = effects s @ [ParserCall (message c)]"
  using assms
  by (simp add: loop_body_def ignored_def carries_breaking_change_def is_feature_def
      list_ex_noteHasBreakingChange MINOR_LIST_def Let_def)

lemma commit_cases:
  obtains (ign) "ignored c" | (bad) "fails_parsing parse c"
    | (ok) p where "\<not> ignored c" "parse (message c) = Some p"
  by (cases "parse (message c)") (auto simp: fails_parsing_def)

lemma ignored_not_others:
  "ignored c \<Longrightarrow> \<not> fails_parsing parse c \<and> \<not> carries_breaking_change parse c \<and> \<not> is_feature parse c"
  by (simp add: fails_parsing_def carries_breaking_change_def is_feature_def)

lemma fails_not_others:
  "fails_parsing parse c \<Longrightarrow> \<not> ignored c \<and> \<not> carries_breaking_change parse c \<and> \<not> is_feature parse c"
  by (simp add: fails_parsing_def carries_breaking_change_def is_feature_def)

lemma classify_from_result:
  "fst (classify_from parse r cs s) =
     (if r = ERROR \<and> list_ex (fails_parsing parse) cs then None
      else Some (if bumpMajor s \<or> list_ex (carries_breaking_change parse) cs then major
                 else if bumpMinor s \<or> list_ex (is_feature parse) cs then minor
                 else patch))"
proof (induction cs arbitrary: s)
  case Nil
  show ?case by simp
next
  case (Cons c cs)
  show ?case
  proof (cases rule: commit_cases [where c = c and parse = parse])
    case ign
    show ?thesis
      using ign ignored_not_others [OF ign, of parse]
      by (simp add: loop_body_ignored Cons.IH)
  next
    case bad
    show ?thesis
    proof (cases "r = ERROR")
      case True
      then show ?thesis using bad by (simp add: loop_body_fails)
    next
      case False
      from loop_body_fails_continue [OF bad False, of s] obtain s' where
        s': "loop_body parse r c s = Next s'" "bumpMajor s' = bumpMajor s" "bumpMinor s' = bumpMinor s"
        by blast
      have "fst (classify_from parse r (c # cs) s) = fst (classify_from parse r cs s')"
        using s'(1) by simp
      then show ?thesis
        using False fails_not_others [OF bad] s'(2,3) by (simp add: Cons.IH)
    qed
  next
    case (ok p)
    from loop_body_parsed [where parse = parse and r = r and s = s, OF ok] obtain s' where
      s': "loop_body parse r c s = Next s'"
          "bumpMajor s' = (bumpMajor s \<or> carries_breaking_change parse c)"
          "bumpMinor s' = (bumpMinor s \<or> (is_feature parse c \<and> \<not> carries_breaking_change parse c))"
      by blast
    have nf: "\<not> fails_parsing parse c" using ok by (simp add: fails_parsing_def)
    have "fst (classify_from parse r (c # cs) s) = fst (classify_from parse r cs s')"
      using s'(1) by simp
    also have "\<dots> = (if r = ERROR \<and> list_ex (fails_parsing parse) cs then None
      else Some (if bumpMajor s' \<or> list_ex (carries_breaking_change parse) cs then major
                 else if bumpMinor s' \<or> list_ex (is_feature parse) cs then minor
                 else patch))"
      by (rule Cons.IH)
    finally show ?thesis using nf s'(2,3) by auto
  qed
qed

lemma ignored_iff_begins_with_Merge:
  "ignored c \<longleftrightarrow> (\<exists>rest. message c = ''Merge '' @ rest)"
proof
  assume "ignored c"
  then have "take 6 (message c) = ''Merge ''"
    by (simp add: ignored_def IGNORE_MESSAGE_PATTERN_test_def)
  then have "message c = ''Merge '' @ drop 6 (message c)"
    by (metis append_take_drop_id)
  then show "\<exists>rest. message c = ''Merge '' @ rest" ..
next
  assume "\<exists>rest. message c = ''Merge '' @ rest"
  then show "ignored c"
    by (auto simp add: ignored_def IGNORE_MESSAGE_PATTERN_test_def)
qed

lemma parser_calls_append: "parser_calls (es @ fs) = parser_calls es @ parser_calls fs"
  by (induction es rule: parser_calls.induct) simp_all

text \<open>A prefix of the commits that does not abort leaves a state from which the loop goes on.\<close>

lemma classify_from_append:
  assumes "\<not> (r = ERROR \<and> list_ex (fails_parsing parse) pre)"
  shows "\<exists>s'. (\<forall>cs. classify_from parse r (pre @ cs) s = classify_from parse r cs s')
           \<and> effects s' = snd (classify_from parse r pre s)
           \<and> parser_calls (effects s') =
               parser_calls (effects s) @ map message (filter (\<lambda>c. \<not> ignored c) pre)"
  using assms
proof (induction pre arbitrary: s)
  case Nil
  show ?case by (rule exI [of _ s]) simp
next
  case (Cons c pre)
  have rest: "\<not> (r = ERROR \<and> list_ex (fails_parsing parse) pre)"
    using Cons.prems by auto
  have "\<exists>s1. loop_body parse r c s = Next s1
          \<and> parser_calls (effects s1) =
              parser_calls (effects s) @ map message (filter (\<lambda>c. \<not> ignored c) [c])"
  proof (cases rule: commit_cases [where c = c and parse = parse])
    case ign
    then show ?thesis by (simp add: loop_body_ignored parser_calls_append)
  next
    case bad
    then have "r \<noteq> ERROR" using Cons.prems by auto
    from loop_body_fails_continue [OF bad this, of s] show ?thesis
      using fails_not_others [OF bad] by (auto simp add: parser_calls_append)
  next
    case (ok p)
    from loop_body_parsed [where parse = parse and r = r and s = s, OF ok] show ?thesis
      using ok(1) by (auto simp add: parser_calls_append)
  qed
  then obtain s1 where s1: "loop_body parse r c s = Next s1"
    "parser_calls (effects s1) =
       parser_calls (effects s) @ map message (filter (\<lambda>c. \<not> ignored c) [c])"
    by blast
  from Cons.IH [OF rest, of s1] obtain s' where s':
    "\<forall>cs. classify_from parse r (pre @ cs) s1 = classify_from parse r cs s'"
    "effects s' = snd (classify_from parse r pre s1)"
    "parser_calls (effects s') =
       parser_calls (effects s1) @ map message (filter (\<lambda>c. \<not> ignored c) pre)"
    by blast
  show ?case
  proof (intro exI [of _ s'] conjI allI)
    fix cs
    show "classify_from parse r ((c # pre) @ cs) s = classify_from parse r cs s'"
      using s1(1) s'(1) by simp
  next
    show "effects s' = snd (classify_from parse r (c # pre) s)"
      using s1(1) s'(2) by simp
  next
    show "parser_calls (effects s') =
        parser_calls (effects s) @ map message (filter (\<lambda>c. \<not> ignored c) (c # pre))"
      using s1(2) s'(3) by simp
  qed
qed

lemma classify_from_all_ignored:
  "\<forall>c\<in>set cs. ignored c \<Longrightarrow> classify_from parse r cs s =
     (Some (if bumpMajor s then major else if bumpMinor s then minor else patch),
      effects s @ map (\<lambda>c. Debug (''Ignoring commit message: '' @ apostrophe @ message c @ apostrophe)) cs)"
  by (induction cs arbitrary: s) (simp_all add: loop_body_ignored)

lemma without_debug_append [simp]:
  "without_debug (es @ fs) = without_debug es @ without_debug fs"
  by (simp add: without_debug_def)

lemma without_debug_simps [simp]:
  "without_debug [] = []"
  "without_debug (Debug m # es) = without_debug es"
  "without_debug (ParserCall m # es) = ParserCall m # without_debug es"
  "without_debug (Warning m # es) = Warning m # without_debug es"
  "without_debug (SetFailed m # es) = SetFailed m # without_debug es"
  by (simp_all add: without_debug_def)

lemma classify_from_filter:
  assumes "bumpMajor s = bumpMajor t" and "bumpMinor s = bumpMinor t"
    and "without_debug (effects s) = without_debug (effects t)"
  shows "fst (classify_from parse r (filter (\<lambda>c. \<not> ignored c) cs) s) = fst (classify_from parse r cs t)
       \<and> without_debug (snd (classify_from parse r (filter (\<lambda>c. \<not> ignored c) cs) s))
           = without_debug (snd (classify_from parse r cs t))"
  using assms
proof (induction cs arbitrary: s t)
  case Nil
  then show ?case by simp
next
  case (Cons c cs)
  show ?case
  proof (cases rule: commit_cases [where c = c and parse = parse])
    case ign
    have "classify_from parse r (c # cs) t =
        classify_from parse r cs (t\<lparr>effects := effects t @
          [Debug (''Ignoring commit message: '' @ apostrophe @ message c @ apostrophe)]\<rparr>)"
      using ign by (simp add: loop_body_ignored)
    moreover have "filter (\<lambda>c. \<not> ignored c) (c # cs) = filter (\<lambda>c. \<not> ignored c) cs"
      using ign by simp
    ultimately show ?thesis
      using Cons.IH [of s "t\<lparr>effects := effects t @
          [Debug (''Ignoring commit message: '' @ apostrophe @ message c @ apostrophe)]\<rparr>"]
        Cons.prems by simp
  next
    case bad
    then have keep: "filter (\<lambda>c. \<not> ignored c) (c # cs) = c # filter (\<lambda>c. \<not> ignored c) cs"
      by (simp add: fails_parsing_def)
    show ?thesis
    proof (cases "r = ERROR")
      case True
      then show ?thesis using bad keep Cons.prems by (simp add: loop_body_fails)
    next
      case False
      from loop_body_fails_continue [OF bad False, of s] obtain s1 where
        s1: "loop_body parse r c s = Next s1" "bumpMajor s1 = bumpMajor s" "bumpMinor s1 = bumpMinor s"
          "effects s1 = effects s @ ParserCall (message c) #
                 (if r = WARN then [Warning (not_conventional_text (message c))] else [])"
        by blast
      from loop_body_fails_continue [OF bad False, of t] obtain t1 where
        t1: "loop_body parse r c t = Next t1" "bumpMajor t1 = bumpMajor t" "bumpMinor t1 = bumpMinor t"
          "effects t1 = effects t @ ParserCall (message c) #
                 (if r = WARN then [Warning (not_conventional_text (message c))] else [])"
        by blast
      have "without_debug (effects s1) = without_debug (effects t1)"
        using s1(4) t1(4) Cons.prems(3) by simp
      from Cons.IH [of s1 t1] this s1 t1 Cons.prems keep show ?thesis by simp
    qed
  next
    case (ok p)
    then have keep: "filter (\<lambda>c. \<not> ignored c) (c # cs) = c # filter (\<lambda>c. \<not> ignored c) cs"
      by simp
    from loop_body_parsed [where parse = parse and r = r and s = s, OF ok] obtain s1 where
      s1: "loop_body parse r c s = Next s1"
        "bumpMajor s1 = (bumpMajor s \<or> carries_breaking_change parse c)"
        "bumpMinor s1 = (bumpMinor s \<or> (is_feature parse c \<and> \<not> carries_breaking_change parse c))"
        "effects s1 = effects s @ [ParserCall (message c)]"
      by blast
    from loop_body_parsed [where parse = parse and r = r and s = t, OF ok] obtain t1 where
      t1: "loop_body parse r c t = Next t1"
        "bumpMajor t1 = (bumpMajor t \<or> carries_breaking_change parse c)"
        "bumpMinor t1 = (bumpMinor t \<or> (is_feature parse c \<and> \<not> carries_breaking_change parse c))"
        "effects t1 = effects t @ [ParserCall (message c)]"
      by blast
    have "without_debug (effects s1) = without_debug (effects t1)"
      using s1(4) t1(4) Cons.prems(3) by simp
    from Cons.IH [of s1 t1] this s1 t1 Cons.prems keep show ?thesis by simp
  qed
qed

lemmas example_defs = example_parser_def commit_of_def mixed_commits_def

lemmas classifier_defs = getBumpTypeFromCommits_def loop_body_def IGNORE_MESSAGE_PATTERN_test_def
  noteHasBreakingChange_def BREAKING_CHANGE_def MINOR_LIST_def toLowerCase_def toLowerCase_char_def
  not_conventional_text_def apostrophe_def

lemmas spec_defs = ignored_def fails_parsing_def carries_breaking_change_def is_feature_def
  expected_bump_def IGNORE_MESSAGE_PATTERN_test_def toLowerCase_def toLowerCase_char_def

section \<open>Claims about the classifier\<close>

text \<open>
  C1. For every parser, every list of commits and every reaction: the call returns
  \<open>undefined\<close> exactly when the reaction is \<open>ERROR\<close> and some commit that is not ignored
  fails to parse; whenever it returns a bump type, that is major if some commit that is
  not ignored and parses carries a breaking-change note, else minor if some such commit
  has a lower-cased type token among \<open>feat\<close> and \<open>feature\<close>, else patch; and the empty
  list yields patch under every reaction.
\<close>

theorem getBumpTypeFromCommits_result:
  "(fst (getBumpTypeFromCommits parse commits reaction) = None
      \<longleftrightarrow> reaction = ERROR \<and> list_ex (fails_parsing parse) commits)
   \<and> (fst (getBumpTypeFromCommits parse commits reaction) \<noteq> None \<longrightarrow>
        fst (getBumpTypeFromCommits parse commits reaction) = Some (expected_bump parse commits))
   \<and> fst (getBumpTypeFromCommits parse [] reaction) = Some patch"
  by (simp add: getBumpTypeFromCommits_def classify_from_result expected_bump_def)

text \<open>The theorem at a concrete input.\<close>

theorem getBumpTypeFromCommits_result_witness:
  "fst (getBumpTypeFromCommits example_parser mixed_commits WARN) \<noteq> None
   \<and> fst (getBumpTypeFromCommits example_parser mixed_commits WARN) = Some minor
   \<and> expected_bump example_parser mixed_commits = minor
   \<and> fst (getBumpTypeFromCommits example_parser mixed_commits ERROR) = None"
  using getBumpTypeFromCommits_result [of example_parser mixed_commits WARN]
    getBumpTypeFromCommits_result [of example_parser mixed_commits ERROR]
  by (simp add: example_defs spec_defs)

text \<open>
  C2. Under the reaction \<open>ERROR\<close>, let \<open>c\<close> be the first commit that is not ignored and
  fails to parse, after the commits \<open>pre\<close> and before the commits \<open>post\<close>. The call
  returns \<open>undefined\<close>, not a bump type. Its effects are those of the call on \<open>pre\<close>
  alone, then the parser call on the message of \<open>c\<close>, then \<open>setFailed\<close> with a text that
  quotes that message, and nothing more: the parser is called on the commits of
  \<open>pre\<close> that are not ignored and on \<open>c\<close>, and on no commit of \<open>post\<close>.
\<close>

theorem error_reaction_stops_at_first_malformed:
  assumes "\<not> list_ex (fails_parsing parse) pre" and "fails_parsing parse c"
  shows "getBumpTypeFromCommits parse (pre @ c # post) ERROR =
           (None, snd (getBumpTypeFromCommits parse pre ERROR) @
              [ParserCall (message c),
               SetFailed (''Commit message not in conventional-commits format: '' @
                 apostrophe @ message c @ apostrophe)])
       \<and> parser_calls (snd (getBumpTypeFromCommits parse (pre @ c # post) ERROR)) =
           map message (filter (\<lambda>c. \<not> ignored c) (pre @ [c]))"
proof -
  let ?s0 = "\<lparr>bumpMajor = False, bumpMinor = False, effects = []\<rparr>"
  from classify_from_append [of ERROR parse pre ?s0] assms(1) obtain s' where s':
    "\<forall>cs. classify_from parse ERROR (pre @ cs) ?s0 = classify_from parse ERROR cs s'"
    "effects s' = snd (classify_from parse ERROR pre ?s0)"
    "parser_calls (effects s') = parser_calls (effects ?s0) @ map message (filter (\<lambda>c. \<not> ignored c) pre)"
    by blast
  have "classify_from parse ERROR (pre @ c # post) ?s0 =
      (None, effects s' @ [ParserCall (message c), SetFailed (not_conventional_text (message c))])"
    using s'(1) assms(2) by (simp add: loop_body_fails)
  then show ?thesis
    using s'(2,3) fails_not_others [OF assms(2)]
    by (simp add: getBumpTypeFromCommits_def parser_calls_append not_conventional_text_def)
qed

text \<open>The theorem at a concrete input.\<close>

theorem error_reaction_stops_at_first_malformed_witness:
  "\<not> list_ex (fails_parsing example_parser) (take 3 mixed_commits)
   \<and> fails_parsing example_parser (mixed_commits ! 3)
   \<and> getBumpTypeFromCommits example_parser
        (take 3 mixed_commits @ mixed_commits ! 3 # [commit_of ''feat!: remove deprecated API endpoints'']) ERROR =
      (None,
       [ParserCall ''feat: add user dashboard'',
        Debug (''Ignoring commit message: '' @ apostrophe @ ''Merge branch feature into main'' @ apostrophe),
        ParserCall ''fix: resolve login issue'',
        ParserCall ''Invalid commit message format'',
        SetFailed (''Commit message not in conventional-commits format: '' @ apostrophe @
          ''Invalid commit message format'' @ apostrophe)])"
proof -
  have h1: "\<not> list_ex (fails_parsing example_parser) (take 3 mixed_commits)"
    by (simp add: example_defs spec_defs)
  have h2: "fails_parsing example_parser (mixed_commits ! 3)"
    by (simp add: example_defs spec_defs)
  have pre: "snd (getBumpTypeFromCommits example_parser (take 3 mixed_commits) ERROR) =
       [ParserCall ''feat: add user dashboard'',
        Debug (''Ignoring commit message: '' @ apostrophe @ ''Merge branch feature into main'' @ apostrophe),
        ParserCall ''fix: resolve login issue'']"
    by (simp add: example_defs classifier_defs)
  have m: "message (mixed_commits ! 3) = ''Invalid commit message format''"
    by (simp add: example_defs)
  show ?thesis
    using error_reaction_stops_at_first_malformed [OF h1 h2,
        of "[commit_of ''feat!: remove deprecated API endpoints'']"] h1 h2
    by (simp only: pre m) simp
qed

text \<open>
  C5. For a commit that is not ignored and that the parser accepts, the iteration sets
  the major flag if and only if some note of the parsed commit has the title
  \<open>BREAKING CHANGE\<close>, compared as a string, so case-sensitively; the flag is otherwise
  left as it was. Hence a call on that commit alone returns major exactly when there is
  such a note, whatever the text of the message is.
\<close>

theorem major_flag_iff_breaking_change_note:
  assumes "\<not> ignored c" and "parse (message c) = Some p"
  shows "(\<exists>s'. loop_body parse r c s = Next s'
            \<and> (bumpMajor s' \<longleftrightarrow> bumpMajor s \<or> (\<exists>n\<in>set (cc_notes p). title n = ''BREAKING CHANGE'')))
       \<and> (fst (getBumpTypeFromCommits parse [c] r) = Some major
            \<longleftrightarrow> (\<exists>n\<in>set (cc_notes p). title n = ''BREAKING CHANGE''))"
proof -
  have brk: "carries_breaking_change parse c \<longleftrightarrow> (\<exists>n\<in>set (cc_notes p). title n = ''BREAKING CHANGE'')"
    using assms by (simp add: carries_breaking_change_def list_ex_iff)
  have nf: "\<not> fails_parsing parse c"
    using assms by (simp add: fails_parsing_def)
  from loop_body_parsed [where parse = parse and r = r and s = s, OF assms]
  have step: "\<exists>s'. loop_body parse r c s = Next s'
      \<and> (bumpMajor s' \<longleftrightarrow> bumpMajor s \<or> (\<exists>n\<in>set (cc_notes p). title n = ''BREAKING CHANGE''))"
    using brk by auto
  have "fst (getBumpTypeFromCommits parse [c] r) = Some major \<longleftrightarrow> carries_breaking_change parse c"
    using nf by (simp add: getBumpTypeFromCommits_def classify_from_result del: classify_from.simps)
  with step brk show ?thesis by simp
qed

text \<open>The theorem at a concrete input.\<close>

theorem major_flag_iff_breaking_change_note_witness:
  "\<not> ignored (commit_of ''docs: what BREAKING CHANGE means'')
   \<and> example_parser (message (commit_of ''docs: what BREAKING CHANGE means'')) =
       Some \<lparr>cc_type = ''docs'', cc_notes = [\<lparr>title = ''breaking change'', note_text = ''lower case''\<rparr>]\<rparr>
   \<and> fst (getBumpTypeFromCommits example_parser [commit_of ''docs: what BREAKING CHANGE means''] WARN) \<noteq> Some major
   \<and> \<not> ignored (commit_of ''feat!: remove deprecated API endpoints'')
   \<and> fst (getBumpTypeFromCommits example_parser [commit_of ''feat!: remove deprecated API endpoints''] WARN) = Some major"
proof -
  have a1: "\<not> ignored (commit_of ''docs: what BREAKING CHANGE means'')"
    by (simp add: example_defs spec_defs)
  have a2: "example_parser (message (commit_of ''docs: what BREAKING CHANGE means'')) =
       Some \<lparr>cc_type = ''docs'', cc_notes = [\<lparr>title = ''breaking change'', note_text = ''lower case''\<rparr>]\<rparr>"
    by (simp add: example_defs)
  have b1: "\<not> ignored (commit_of ''feat!: remove deprecated API endpoints'')"
    by (simp add: example_defs spec_defs)
  have b2: "example_parser (message (commit_of ''feat!: remove deprecated API endpoints'')) =
       Some \<lparr>cc_type = ''feat'',
         cc_notes = [\<lparr>title = ''BREAKING CHANGE'', note_text = ''remove deprecated API endpoints''\<rparr>]\<rparr>"
    by (simp add: example_defs)
  show ?thesis
    using major_flag_iff_breaking_change_note [where parse = example_parser and r = WARN, OF a1 a2]
      major_flag_iff_breaking_change_note [where parse = example_parser and r = WARN, OF b1 b2] a1 a2 b1
    by simp
qed

text \<open>
  C6. An iteration on a commit whose message begins with \<open>Merge\<close> and a space only
  writes the trace-level note; and a call on commits that all begin so returns patch
  under every reaction, with one note per commit and no parser call.
\<close>

theorem merge_commits_are_skipped:
  "((\<exists>rest. message c = ''Merge '' @ rest) \<longrightarrow>
      loop_body parse r c s =
        Next (s\<lparr>effects := effects s @
          [Debug (''Ignoring commit message: '' @ apostrophe @ message c @ apostrophe)]\<rparr>))
   \<and> ((\<forall>c\<in>set commits. \<exists>rest. message c = ''Merge '' @ rest) \<longrightarrow>
      getBumpTypeFromCommits parse commits r =
        (Some patch,
         map (\<lambda>c. Debug (''Ignoring commit message: '' @ apostrophe @ message c @ apostrophe)) commits)
      \<and> parser_calls (snd (getBumpTypeFromCommits parse commits r)) = [])"
proof (intro conjI impI)
  assume "\<exists>rest. message c = ''Merge '' @ rest"
  then have "ignored c" by (simp add: ignored_iff_begins_with_Merge)
  then show "loop_body parse r c s =
        Next (s\<lparr>effects := effects s @
          [Debug (''Ignoring commit message: '' @ apostrophe @ message c @ apostrophe)]\<rparr>)"
    by (rule loop_body_ignored)
next
  assume "\<forall>c\<in>set commits. \<exists>rest. message c = ''Merge '' @ rest"
  then have all: "\<forall>c\<in>set commits. ignored c" by (simp add: ignored_iff_begins_with_Merge)
  then show res: "getBumpTypeFromCommits parse commits r =
        (Some patch,
         map (\<lambda>c. Debug (''Ignoring commit message: '' @ apostrophe @ message c @ apostrophe)) commits)"
    by (simp add: getBumpTypeFromCommits_def classify_from_all_ignored)
  have "parser_calls (map (\<lambda>c. Debug (''Ignoring commit message: '' @ apostrophe @ message c @ apostrophe)) cs) = []"
    for cs :: "Commit list"
    by (induction cs) simp_all
  with res show "parser_calls (snd (getBumpTypeFromCommits parse commits r)) = []"
    by simp
qed

text \<open>The theorem at a concrete input.\<close>

theorem merge_commits_are_skipped_witness:
  "map message merge_commits =
     [''Merge '' @ ''branch feature into main'', ''Merge '' @ ''pull request #123 from user/branch'']
   \<and> fst (getBumpTypeFromCommits example_parser merge_commits ERROR) = Some patch
   \<and> parser_calls (snd (getBumpTypeFromCommits example_parser merge_commits ERROR)) = []"
proof -
  have h: "\<forall>c\<in>set merge_commits. \<exists>rest. message c = ''Merge '' @ rest"
    by (simp add: merge_commits_def commit_of_def)
  from merge_commits_are_skipped [of "hd merge_commits" example_parser ERROR
        "\<lparr>bumpMajor = False, bumpMinor = False, effects = []\<rparr>" merge_commits] h
  have res: "getBumpTypeFromCommits example_parser merge_commits ERROR =
        (Some patch,
         map (\<lambda>c. Debug (''Ignoring commit message: '' @ apostrophe @ message c @ apostrophe)) merge_commits)
      \<and> parser_calls (snd (getBumpTypeFromCommits example_parser merge_commits ERROR)) = []"
    by blast
  from conjunct1 [OF res] have r1: "fst (getBumpTypeFromCommits example_parser merge_commits ERROR) = Some patch"
    by simp
  have m: "map message merge_commits =
     [''Merge '' @ ''branch feature into main'', ''Merge '' @ ''pull request #123 from user/branch'']"
    by (simp add: merge_commits_def commit_of_def)
  from m r1 conjunct2 [OF res] show ?thesis by blast
qed

text \<open>
  C7. Removing from the commits every message that matches the ignore pattern changes
  neither the returned value nor the effects other than the trace-level notes.
\<close>

theorem removing_merge_commits_keeps_result:
  "fst (getBumpTypeFromCommits parse (filter (\<lambda>c. \<not> IGNORE_MESSAGE_PATTERN_test (message c)) commits) r)
     = fst (getBumpTypeFromCommits parse commits r)
   \<and> without_debug (snd (getBumpTypeFromCommits parse
        (filter (\<lambda>c. \<not> IGNORE_MESSAGE_PATTERN_test (message c)) commits) r))
     = without_debug (snd (getBumpTypeFromCommits parse commits r))"
  using classify_from_filter [of "\<lparr>bumpMajor = False, bumpMinor = False, effects = []\<rparr>"
      "\<lparr>bumpMajor = False, bumpMinor = False, effects = []\<rparr>" parse r commits]
  by (simp add: getBumpTypeFromCommits_def ignored_def)

text \<open>The theorem at a concrete input.\<close>

theorem removing_merge_commits_keeps_result_witness:
  "filter (\<lambda>c. \<not> IGNORE_MESSAGE_PATTERN_test (message c)) mixed_commits =
      map commit_of [''feat: add user dashboard'', ''fix: resolve login issue'', ''Invalid commit message format'']
   \<and> fst (getBumpTypeFromCommits example_parser
        (map commit_of [''feat: add user dashboard'', ''fix: resolve login issue'', ''Invalid commit message format'']) ERROR)
      = fst (getBumpTypeFromCommits example_parser mixed_commits ERROR)"
proof -
  have f: "filter (\<lambda>c. \<not> IGNORE_MESSAGE_PATTERN_test (message c)) mixed_commits =
      map commit_of [''feat: add user dashboard'', ''fix: resolve login issue'', ''Invalid commit message format'']"
    by (simp add: example_defs IGNORE_MESSAGE_PATTERN_test_def)
  show ?thesis
    using removing_merge_commits_keeps_result [of example_parser mixed_commits ERROR]
    by (simp only: f)
qed

text \<open>
  C10. Under the reactions \<open>WARN\<close> and \<open>IGNORE\<close> the call returns a bump type both
  before and after one more commit is appended, and the bump type after is at least
  as severe as the one before; within an iteration a flag that is set stays set.
\<close>

theorem appending_commit_never_lowers_bump:
  assumes "r = WARN \<or> r = IGNORE"
  shows "(\<exists>a b. fst (getBumpTypeFromCommits parse commits r) = Some a
            \<and> fst (getBumpTypeFromCommits parse (commits @ [c]) r) = Some b
            \<and> severity a \<le> severity b)
       \<and> (\<forall>s s'. loop_body parse r c s = Next s' \<longrightarrow>
            (bumpMajor s \<longrightarrow> bumpMajor s') \<and> (bumpMinor s \<longrightarrow> bumpMinor s'))"
proof
  have "r \<noteq> ERROR" using assms by auto
  then show "\<exists>a b. fst (getBumpTypeFromCommits parse commits r) = Some a
            \<and> fst (getBumpTypeFromCommits parse (commits @ [c]) r) = Some b
            \<and> severity a \<le> severity b"
    by (simp add: getBumpTypeFromCommits_def classify_from_result severity_def)
next
  show "\<forall>s s'. loop_body parse r c s = Next s' \<longrightarrow>
            (bumpMajor s \<longrightarrow> bumpMajor s') \<and> (bumpMinor s \<longrightarrow> bumpMinor s')"
  proof (intro allI impI)
    fix s s'
    assume step: "loop_body parse r c s = Next s'"
    show "(bumpMajor s \<longrightarrow> bumpMajor s') \<and> (bumpMinor s \<longrightarrow> bumpMinor s')"
    proof (cases rule: commit_cases [where c = c and parse = parse])
      case ign
      then show ?thesis using step by (auto simp add: loop_body_ignored)
    next
      case bad
      then show ?thesis using step by (auto simp add: loop_body_fails split: if_splits)
    next
      case (ok p)
      from loop_body_parsed [where parse = parse and r = r and s = s, OF ok] step
      show ?thesis by auto
    qed
  qed
qed

text \<open>The theorem at a concrete input.\<close>

theorem appending_commit_never_lowers_bump_witness:
  "(WARN = WARN \<or> WARN = IGNORE)
   \<and> fst (getBumpTypeFromCommits example_parser mixed_commits WARN) = Some minor
   \<and> fst (getBumpTypeFromCommits example_parser
        (mixed_commits @ [commit_of ''feat!: remove deprecated API endpoints'']) WARN) = Some major
   \<and> severity minor \<le> severity major"
proof -
  have a: "fst (getBumpTypeFromCommits example_parser mixed_commits WARN) = Some minor"
    by (simp add: example_defs classifier_defs)
  have b: "fst (getBumpTypeFromCommits example_parser
        (mixed_commits @ [commit_of ''feat!: remove deprecated API endpoints'']) WARN) = Some major"
    by (simp add: example_defs classifier_defs)
  show ?thesis
    using appending_commit_never_lowers_bump [of WARN example_parser mixed_commits
        "commit_of ''feat!: remove deprecated API endpoints''"]
    by (simp only: a b) simp
qed

section \<open>Properties of the client and of the resolver\<close>

lemma outputs_append: "outputs k (es @ fs) = outputs k es @ outputs k fs"
  by (induction k es rule: outputs.induct) simp_all

lemma failures_append: "failures (es @ fs) = failures es @ failures fs"
  by (induction es rule: failures.induct) simp_all

lemma debug_only_silent:
  "list_all is_Debug es \<Longrightarrow> outputs k es = [] \<and> failures es = []"
proof (induction es)
  case Nil
  show ?case by simp
next
  case (Cons e es)
  then show ?case by (cases e) simp_all
qed

lemma fetch_pages_debug_only:
  assumes "fetch_pages client b e cs es page = Some y"
  shows "list_all is_Debug es \<longrightarrow> list_all is_Debug (fst y)"
proof (rule fetch_pages.raw_induct
    [where P = "\<lambda>client b e cs es page y. list_all is_Debug es \<longrightarrow> list_all is_Debug (fst y)"
       and client = client and rangeBegin = b and rangeEnd = e and listOfCommits = cs
       and es = es and page = page and y = y],
    goal_cases)
  case (1 f client b e cs es page y)
  show ?case
  proof
    assume dbg: "list_all is_Debug es"
    show "list_all is_Debug (fst y)"
    proof (cases "repos_compareCommitsWithBasehead (octokit client) (repoOwner client)
        (repoName client) (b @ ''...'' @ e) page 100")
      case (Inl error)
      with 1(2) dbg show ?thesis
        by (simp add: Let_def split: if_splits) auto
    next
      case (Inr response)
      let ?es2 = "(es @ [Debug (''Fetching commits page '' @ toString page)]) @
                 [Debug (''Fetched '' @ toString (length (data_commits response)) @ '' commits''),
                  Debug (''Total commits to fetch: '' @ toString (data_total_commits response))] @
                 map (\<lambda>c. Debug (''Found commit: '' @ commit_sha c @ '' with message: '' @ commit_message c))
                   (data_commits response)"
      let ?cs2 = "cs @ map (\<lambda>c. \<lparr>sha = commit_sha c, message = commit_message c\<rparr>) (data_commits response)"
      have dbg2: "list_all is_Debug ?es2"
        using dbg by (simp add: list_all_iff) auto
      show ?thesis
      proof (cases "data_total_commits response \<le> length ?cs2")
        case True
        with 1(2) Inr have "fst y = ?es2 @ [Debug (''Total commits fetched: '' @ toString (length ?cs2))]"
          by (simp add: Let_def) auto
        with dbg2 show ?thesis by simp
      next
        case False
        with 1(2) Inr have "f client b e ?cs2 ?es2 (page + 1) = Some y"
          by (simp add: Let_def)
        from 1(1) [OF this] dbg2 show ?thesis by blast
      qed
    qed
  qed
next
  case 2
  show ?case by (rule assms)
qed

lemma getListOfCommitsBetween_silent:
  assumes "getListOfCommitsBetween client b e = Some (es, res)"
  shows "outputs k es = [] \<and> failures es = []"
proof -
  from fetch_pages_debug_only [OF assms [unfolded getListOfCommitsBetween_def]]
  have "list_all is_Debug es" by simp
  then show ?thesis by (rule debug_only_silent)
qed

lemma loop_body_outputs:
  "(\<forall>s'. loop_body parse r c s = Next s' \<longrightarrow> outputs k (effects s') = outputs k (effects s))
   \<and> (\<forall>es. loop_body parse r c s = ReturnUndefined es \<longrightarrow> outputs k es = outputs k (effects s))"
proof (cases rule: commit_cases [where c = c and parse = parse])
  case ign
  then show ?thesis by (simp add: loop_body_ignored outputs_append)
next
  case bad
  then show ?thesis by (simp add: loop_body_fails outputs_append)
next
  case (ok p)
  from loop_body_parsed [where parse = parse and r = r and s = s, OF ok]
  show ?thesis by (auto simp add: outputs_append)
qed

lemma classify_from_outputs:
  "outputs k (snd (classify_from parse r cs s)) = outputs k (effects s)"
proof (induction cs arbitrary: s)
  case Nil
  show ?case by simp
next
  case (Cons c cs)
  show ?case
  proof (cases "loop_body parse r c s")
    case (Next s')
    then show ?thesis using Cons.IH [of s'] loop_body_outputs [of parse r c s k] by simp
  next
    case (ReturnUndefined es)
    then show ?thesis using loop_body_outputs [of parse r c s k] by simp
  qed
qed

lemma getBumpTypeFromCommits_outputs:
  "outputs k (snd (getBumpTypeFromCommits parse commits r)) = []"
  by (simp add: getBumpTypeFromCommits_def classify_from_outputs)

lemma determine_versions_shape:
  assumes "determine_versions env client r tag target init = Some (es, vs)"
  shows "outputs k es = [] \<and> (vs = None \<longrightarrow> failures es \<noteq> [])"
proof (cases "truthy tag")
  case None
  with assms show ?thesis
    by (auto simp add: determine_versions_def split: option.splits)
next
  case tag: (Some t)
  show ?thesis
  proof (cases "truthy (semver_valid env t)")
    case None
    with assms tag show ?thesis
      by (auto simp add: determine_versions_def)
  next
    case cv: (Some currentVersion)
    show ?thesis
    proof (cases "getListOfCommitsBetween client t target")
      case None
      with assms tag cv show ?thesis by (simp add: determine_versions_def)
    next
      case (Some p)
      obtain es_list res where p: "p = (es_list, res)" by (cases p)
      from getListOfCommitsBetween_silent [OF Some [unfolded p]]
      have silent: "outputs k es_list = []" "failures es_list = []" by simp_all
      show ?thesis
      proof (cases res)
        case (Inl error)
        with assms tag cv Some p silent show ?thesis
          by (auto simp add: determine_versions_def outputs_append failures_append)
      next
        case (Inr commits)
        with assms tag cv Some p silent show ?thesis
          by (auto simp add: determine_versions_def outputs_append failures_append Let_def
              getBumpTypeFromCommits_outputs split: option.splits if_splits prod.splits)
      qed
    qed
  qed
qed

lemma emit_versions_returned:
  assumes "emit_versions env client cv v target glue = (es, Returned)"
  shows "\<exists>n d. semver_major env v = Inr n \<and> getDefaultBranchName client = Inr d
           \<and> outputs ''new-major-version'' es = [toString n]
           \<and> outputs ''new-version'' es =
               [if target \<noteq> ''refs/heads/'' @ d
                then suffixWithPreRelease (context_sha env) v glue else v]"
proof (cases "semver_major env v")
  case (Inl error)
  with assms show ?thesis by (simp add: emit_versions_def)
next
  case n: (Inr n)
  show ?thesis
  proof (cases "getDefaultBranchName client")
    case (Inl error)
    with assms n show ?thesis by (simp add: emit_versions_def)
  next
    case d: (Inr d)
    have "es = [Info (''Current version: '' @ cv), SetOutput ''current-version'' cv] @
        (if target \<noteq> ''refs/heads/'' @ d then
           [Info (''Target branch ('' @ target @ '') is not the default branch ('' @
              (''refs/heads/'' @ d) @ ''). Suffixing version with pre-release identifier.'')]
         else []) @
        [Info (''New version: '' @ (if target \<noteq> ''refs/heads/'' @ d
                then suffixWithPreRelease (context_sha env) v glue else v)),
         SetOutput ''new-version'' (if target \<noteq> ''refs/heads/'' @ d
                then suffixWithPreRelease (context_sha env) v glue else v),
         Info (''New major version: '' @ toString n),
         SetOutput ''new-major-version'' (toString n)]"
      using assms n d by (simp add: emit_versions_def Let_def split: if_splits)
    then have "outputs ''new-major-version'' es = [toString n]"
      and "outputs ''new-version'' es =
               [if target \<noteq> ''refs/heads/'' @ d
                then suffixWithPreRelease (context_sha env) v glue else v]"
      by (simp_all add: outputs_append)
    with n d show ?thesis by blast
  qed
qed

section \<open>Claims about the suffixer, the client and the resolver\<close>

text \<open>
  C8. For every version and every glue, the suffix operation returns the version, then
  the glue as it is, then the first seven characters of the hash of the triggering
  revision; the version is the beginning of the result, unchanged; and the version
  \<open>1.2.3\<close> with the glue \<open>-rc.\<close> and a hash that starts with \<open>abcdef1\<close> gives
  \<open>1.2.3-rc.abcdef1\<close>.
\<close>

theorem suffixWithPreRelease_appends_glue_and_short_hash:
  "suffixWithPreRelease revision version glue = version @ glue @ take 7 revision
   \<and> take (length version) (suffixWithPreRelease revision version glue) = version
   \<and> suffixWithPreRelease ''abcdef1234567890'' ''1.2.3'' ''-rc.'' = ''1.2.3-rc.abcdef1''"
  by (simp add: suffixWithPreRelease_def)

text \<open>
  C9. On a run of \<open>main\<close> that returns without any call of \<open>setFailed\<close>, let \<open>v\<close> be
  the version held in \<open>newVersion\<close> before the branch check (the incremented version,
  or the initial one). The output \<open>new-major-version\<close> is written once, with the major
  component that \<open>semver.major\<close> reads from \<open>v\<close>; the output \<open>new-version\<close> is written
  once, with \<open>v\<close> suffixed exactly when the target branch differs from \<open>refs/heads/\<close>
  followed by the default branch, and with \<open>v\<close> itself otherwise. The suffix does not
  reach the major output.
\<close>

theorem major_output_is_read_before_suffix:
  assumes "main env fullRepoName githubToken targetBranch reaction initReleaseVersion glue = Some (es, Returned)"
    and "failures es = []"
  shows "\<exists>v n d. incremented_version env fullRepoName githubToken targetBranch reaction initReleaseVersion = Some v
           \<and> semver_major env v = Inr n
           \<and> getDefaultBranchName (GitHubClient_new (getOctokit env) githubToken [fullRepoName]) = Inr d
           \<and> outputs ''new-major-version'' es = [toString n]
           \<and> outputs ''new-version'' es =
               [if targetBranch \<noteq> ''refs/heads/'' @ d
                then suffixWithPreRelease (context_sha env) v glue else v]"
proof -
  let ?client = "GitHubClient_new (getOctokit env) githubToken [fullRepoName]"
  from assms(1) obtain r where r: "getNotConventionalCommitsReactionEnumFromString reaction = Inr r"
    by (cases "getNotConventionalCommitsReactionEnumFromString reaction") (simp_all add: main_def)
  from assms(1) r obtain tag where tag: "getLatestReleaseTag ?client = Inr tag"
    by (cases "getLatestReleaseTag ?client") (simp_all add: main_def Let_def)
  let ?es_tag = "[Info (''Latest release tag: '' @ or_empty tag),
                  SetOutput ''latest-release-tag'' (or_empty tag)]"
  from assms(1) r tag obtain es1 vs where
    dv: "determine_versions env ?client r tag targetBranch initReleaseVersion = Some (es1, vs)"
    by (cases "determine_versions env ?client r tag targetBranch initReleaseVersion")
       (auto simp add: main_def Let_def)
  have "vs \<noteq> None"
  proof
    assume "vs = None"
    with assms(1) r tag dv have "es = ?es_tag @ es1"
      by (simp add: main_def Let_def)
    moreover from determine_versions_shape [OF dv] \<open>vs = None\<close> have "failures es1 \<noteq> []" by simp
    ultimately show False using assms(2) by (simp add: failures_append)
  qed
  then obtain cv v where vs: "vs = Some (cv, v)" by (cases vs) auto
  obtain es2 out where ev: "emit_versions env ?client cv v targetBranch glue = (es2, out)"
    by (cases "emit_versions env ?client cv v targetBranch glue")
  from assms(1) r tag dv vs ev have es: "es = ?es_tag @ es1 @ es2" and out: "out = Returned"
    by (simp_all add: main_def Let_def)
  from emit_versions_returned [OF ev [unfolded out]] obtain n d where nd:
    "semver_major env v = Inr n" "getDefaultBranchName ?client = Inr d"
    "outputs ''new-major-version'' es2 = [toString n]"
    "outputs ''new-version'' es2 =
       [if targetBranch \<noteq> ''refs/heads/'' @ d
        then suffixWithPreRelease (context_sha env) v glue else v]"
    by blast
  have o1: "outputs k es1 = []" for k
    using determine_versions_shape [OF dv] by simp
  have iv: "incremented_version env fullRepoName githubToken targetBranch reaction initReleaseVersion = Some v"
    using r tag dv vs by (simp add: incremented_version_def)
  have "outputs ''new-major-version'' es = [toString n]"
    using es nd(3) o1 by (simp add: outputs_append)
  moreover have "outputs ''new-version'' es =
       [if targetBranch \<noteq> ''refs/heads/'' @ d
        then suffixWithPreRelease (context_sha env) v glue else v]"
    using es nd(4) o1 by (simp add: outputs_append)
  ultimately show ?thesis using iv nd(1,2) by blast
qed

text \<open>The theorem at a concrete input.\<close>

theorem major_output_is_read_before_suffix_witness:
  "main (example_env [''feat!: remove deprecated API endpoints'']) ''owner/repo'' ''token''
      ''refs/heads/develop'' ''warn'' ''1.0.0'' ''-'' = Some (prerelease_run, Returned)
   \<and> failures prerelease_run = []
   \<and> incremented_version (example_env [''feat!: remove deprecated API endpoints'']) ''owner/repo'' ''token''
      ''refs/heads/develop'' ''warn'' ''1.0.0'' = Some ''2.0.0''
   \<and> outputs ''new-major-version'' prerelease_run = [''2'']
   \<and> outputs ''new-version'' prerelease_run = [''2.0.0-abcdef1'']"
proof -
  let ?env = "example_env [''feat!: remove deprecated API endpoints'']"
  have run: "main ?env ''owner/repo'' ''token'' ''refs/heads/develop'' ''warn'' ''1.0.0'' ''-''
      = Some (prerelease_run, Returned)"
    by code_simp
  have ok: "failures prerelease_run = []"
    by (simp add: prerelease_run_def)
  have iv: "incremented_version ?env ''owner/repo'' ''token'' ''refs/heads/develop'' ''warn'' ''1.0.0''
      = Some ''2.0.0''"
    by code_simp
  have mj: "semver_major ?env ''2.0.0'' = Inr 2"
    by code_simp
  have db: "getDefaultBranchName (GitHubClient_new (getOctokit ?env) ''token'' [''owner/repo'']) = Inr ''main''"
    by code_simp
  have sf: "suffixWithPreRelease (context_sha ?env) ''2.0.0'' ''-'' = ''2.0.0-abcdef1''"
    by code_simp
  have two: "toString 2 = ''2''"
    by code_simp
  from major_output_is_read_before_suffix [OF run ok] obtain v n d where
    "incremented_version ?env ''owner/repo'' ''token'' ''refs/heads/develop'' ''warn'' ''1.0.0'' = Some v"
    "semver_major ?env v = Inr n"
    "getDefaultBranchName (GitHubClient_new (getOctokit ?env) ''token'' [''owner/repo'']) = Inr d"
    "outputs ''new-major-version'' prerelease_run = [toString n]"
    "outputs ''new-version'' prerelease_run =
       [if ''refs/heads/develop'' \<noteq> ''refs/heads/'' @ d
        then suffixWithPreRelease (context_sha ?env) v ''-'' else v]"
    by blast
  with iv mj db sf two have "outputs ''new-major-version'' prerelease_run = [''2'']"
    and "outputs ''new-version'' prerelease_run = [''2.0.0-abcdef1'']"
    by simp_all
  with run ok iv show ?thesis by blast
qed

text \<open>
  C4. The claim is that a not-found answer on the first page makes
  \<open>getListOfCommitsBetween\<close> fail. The code does not: on a server that answers the first
  comparison with status 404 the call leaves the loop by \<open>break\<close> and returns the empty
  list, where \<open>main\<close> and the README expect a failure for a target branch that does not
  exist.
\<close>

theorem unresolvable_range_returns_empty_list:
  "getListOfCommitsBetween (GitHubClient_new (\<lambda>token. not_found_octokit) ''token'' [''owner/repo''])
     ''v1.0.0'' ''refs/heads/nope'' =
   Some ([Debug ''Getting list of commits between v1.0.0 and refs/heads/nope'',
          Debug ''Fetching commits page 0'',
          Debug ''Error fetching commits: Not Found'',
          Debug ''Total commits fetched: 0''],
         Inr [])"
  by code_simp

text \<open>The same for every client and every range: a 404 on the first page gives the empty list.\<close>

lemma first_page_not_found_returns_empty_list:
  assumes "repos_compareCommitsWithBasehead (octokit client) (repoOwner client) (repoName client)
             (rangeBegin @ ''...'' @ rangeEnd) 0 100 = Inl error"
    and "status error = Some 404"
  shows "\<exists>es. getListOfCommitsBetween client rangeBegin rangeEnd = Some (es, Inr [])"
  using assms by (simp add: getListOfCommitsBetween_def fetch_pages.simps [of _ _ _ _ _ 0] Let_def)

text \<open>
  C3. The claim is that no new version is written once a failure has been signalled.
  The code does write one after an abort of the classification: with the reaction
  \<open>error\<close> and a commit that is not a conventional commit, \<open>getBumpTypeFromCommits\<close>
  calls \<open>setFailed\<close> and returns \<open>undefined\<close>, \<open>main\<close> takes \<open>undefined\<close> for a missing bump
  type, bumps the patch level and writes \<open>new-version\<close>. Every other failure of
  \<open>main\<close> returns right after \<open>setFailed\<close>.
\<close>

theorem classification_abort_still_emits_new_version:
  "main (example_env [''Add some new features'']) ''owner/repo'' ''token'' ''refs/heads/main''
      ''error'' ''1.0.0'' ''-'' =
   Some
    ([Info ''Latest release tag: v1.0.0'',
      SetOutput ''latest-release-tag'' ''v1.0.0'',
      Debug ''Getting list of commits between v1.0.0 and refs/heads/main.'',
      Debug ''Getting list of commits between v1.0.0 and refs/heads/main'',
      Debug ''Fetching commits page 0'',
      Debug ''Fetched 1 commits'',
      Debug ''Total commits to fetch: 1'',
      Debug ''Found commit: abc123 with message: Add some new features'',
      Debug ''Total commits fetched: 1'',
      Info ''Found 1 commits since the latest release.'',
      ParserCall ''Add some new features'',
      SetFailed (''Commit message not in conventional-commits format: '' @ apostrophe @
        ''Add some new features'' @ apostrophe),
      Info ''No conventional commits found. Bumping patch version.'',
      Info ''Bump type: patch'',
      Info ''Current version: 1.0.0'',
      SetOutput ''current-version'' ''1.0.0'',
      Info ''New version: 1.0.1'',
      SetOutput ''new-version'' ''1.0.1'',
      Info ''New major version: 1'',
      SetOutput ''new-major-version'' ''1''],
     Returned)"
  by code_simp

text \<open>
  The failures that \<open>main\<close> itself raises (and the errors that escape it) before
  \<open>newVersion\<close> is determined leave the output \<open>new-version\<close> unwritten.
\<close>

lemma failure_of_main_emits_no_new_version:
  assumes "main env fullRepoName githubToken targetBranch reaction initReleaseVersion glue = Some (es, out)"
    and "incremented_version env fullRepoName githubToken targetBranch reaction initReleaseVersion = None"
  shows "outputs ''new-version'' es = []"
proof -
  let ?client = "GitHubClient_new (getOctokit env) githubToken [fullRepoName]"
  show ?thesis
  proof (cases "getNotConventionalCommitsReactionEnumFromString reaction")
    case (Inl error)
    with assms(1) show ?thesis by (auto simp add: main_def)
  next
    case r: (Inr r)
    show ?thesis
    proof (cases "getLatestReleaseTag ?client")
      case (Inl error)
      with assms(1) r show ?thesis by (auto simp add: main_def Let_def)
    next
      case tag: (Inr tag)
      from assms(1) r tag obtain es1 vs where
        dv: "determine_versions env ?client r tag targetBranch initReleaseVersion = Some (es1, vs)"
        by (cases "determine_versions env ?client r tag targetBranch initReleaseVersion")
           (auto simp add: main_def Let_def)
      from assms(2) r tag dv have "vs = None"
        by (cases vs) (auto simp add: incremented_version_def)
      with assms(1) r tag dv have "es = [Info (''Latest release tag: '' @ or_empty tag),
                  SetOutput ''latest-release-tag'' (or_empty tag)] @ es1"
        by (simp add: main_def Let_def)
      with determine_versions_shape [OF dv, of "''new-version''"] show ?thesis
        by (simp add: outputs_append)
    qed
  qed
qed

end
